theory Spec2Isabelle
  imports Main "HOL-Library.Word"
begin

unbundle bit_operations_syntax

section \<open>Key-scale attenuation (src/devices/sound/qsound.h, lines 464--472)\<close>

text \<open>
  The C++ being modelled:
  \<^verbatim>\<open>
  inline uint32_t opl_key_scale_atten(uint32_t block, uint32_t fnum_4msb)
  {
      static uint8_t const fnum_to_atten[16] = { 0,24,32,37,40,43,45,47,48,50,51,52,53,54,55,56 };
      int32_t result = fnum_to_atten[fnum_4msb] - 8 * (block ^ 7);
      return std::max<int32_t>(0, result);
  }
  \<close>
  Both parameters are \<open>uint32_t\<close>: any 32-bit value can be passed, and the function
  itself applies no mask. The table has 16 entries of type \<open>uint8_t\<close>.
\<close>

type_synonym u8 = "8 word"
type_synonym u32 = "32 word"

definition fnum_to_atten :: "u8 list" where
  "fnum_to_atten = [0, 24, 32, 37, 40, 43, 45, 47, 48, 50, 51, 52, 53, 54, 55, 56]"

text \<open>
  Reading a C array at an unsigned index. A read past the end of the array is undefined
  behaviour in C++; the model makes it the value \<open>None\<close>.
\<close>

definition array_read :: "'a list \<Rightarrow> u32 \<Rightarrow> 'a option" where
  "array_read xs i = (if unat i < length xs then Some (xs ! unat i) else None)"

text \<open>
  The initialiser of \<open>result\<close>. The table entry is promoted to \<open>int\<close>; \<open>block ^ 7\<close> and
  hence \<open>8 * (block ^ 7)\<close> are \<open>uint32_t\<close>, so the subtraction is carried out modulo
  \<open>2 ^ 32\<close>, and the value is then stored in an \<open>int32_t\<close> (same 32 bits, read as two's
  complement by \<open>sint\<close>).
\<close>

definition key_scale_diff :: "u8 \<Rightarrow> u32 \<Rightarrow> u32" where
  "key_scale_diff a block = ucast a - 8 * (block XOR 7)"

text \<open>\<open>std::max<int32_t>(a, b)\<close> is \<open>(a < b) ? b : a\<close>, with the signed comparison.\<close>

definition max_s32 :: "u32 \<Rightarrow> u32 \<Rightarrow> u32" where
  "max_s32 a b = (if sint a < sint b then b else a)"

definition opl_key_scale_atten :: "u32 \<Rightarrow> u32 \<Rightarrow> u32 option" where
  "opl_key_scale_atten block fnum_4msb =
     (case array_read fnum_to_atten fnum_4msb of
        None \<Rightarrow> None
      | Some a \<Rightarrow> (let result = key_scale_diff a block in Some (max_s32 0 result)))"

subsection \<open>The formula as the specification words it\<close>

text \<open>
  Section 4.6 of the specification: given the top 4 bits of the frequency number at
  block 7, the offset is the table below (units of 0.75 dB); for blocks below 7,
  subtract \<open>8 * (7 - block)\<close> from the looked-up value and clamp the result to a minimum
  of 0. This second definition follows those words, on unbounded integers, and is
  compared with the function translated from the source.
\<close>

definition block7_offsets :: "int list" where
  "block7_offsets = [0, 24, 32, 37, 40, 43, 45, 47, 48, 50, 51, 52, 53, 54, 55, 56]"

definition key_scale_atten_spec :: "nat \<Rightarrow> nat \<Rightarrow> int" where
  "key_scale_atten_spec block fnum4 = max 0 (block7_offsets ! fnum4 - 8 * (7 - int block))"

section \<open>Small 32-bit values and the table\<close>

lemmas ks_defs =
  opl_key_scale_atten_def array_read_def fnum_to_atten_def key_scale_diff_def max_s32_def

lemma u32_lt8_cases:
  fixes b :: u32
  assumes "unat b < 8"
  shows "b = 0 \<or> b = 1 \<or> b = 2 \<or> b = 3 \<or> b = 4 \<or> b = 5 \<or> b = 6 \<or> b = 7"
proof -
  have "unat b = 0 \<or> unat b = 1 \<or> unat b = 2 \<or> unat b = 3 \<or> unat b = 4 \<or> unat b = 5
        \<or> unat b = 6 \<or> unat b = 7"
    using assms by arith
  then show ?thesis by (simp add: word_unat_eq_iff)
qed

lemma u32_lt16_cases:
  fixes f :: u32
  assumes "unat f < 16"
  shows "f = 0 \<or> f = 1 \<or> f = 2 \<or> f = 3 \<or> f = 4 \<or> f = 5 \<or> f = 6 \<or> f = 7
       \<or> f = 8 \<or> f = 9 \<or> f = 10 \<or> f = 11 \<or> f = 12 \<or> f = 13 \<or> f = 14 \<or> f = 15"
proof -
  have "unat f = 0 \<or> unat f = 1 \<or> unat f = 2 \<or> unat f = 3 \<or> unat f = 4 \<or> unat f = 5
        \<or> unat f = 6 \<or> unat f = 7 \<or> unat f = 8 \<or> unat f = 9 \<or> unat f = 10 \<or> unat f = 11
        \<or> unat f = 12 \<or> unat f = 13 \<or> unat f = 14 \<or> unat f = 15"
    using assms by arith
  then show ?thesis by (simp add: word_unat_eq_iff)
qed

lemma key_scale_value:
  fixes block f :: u32
  assumes "unat block < 8" "unat f < 16"
  shows "\<exists>r. opl_key_scale_atten block f = Some r \<and>
    uint r = max 0 (uint (fnum_to_atten ! unat f) - 8 * (7 - uint block))"
  using u32_lt8_cases [OF assms(1)] u32_lt16_cases [OF assms(2)]
  by (elim disjE; simp add: ks_defs)

lemma diff_exact:
  fixes block f :: u32
  assumes "unat block < 8" "unat f < 16"
  shows "sint (key_scale_diff (fnum_to_atten ! unat f) block) =
     uint (fnum_to_atten ! unat f) - 8 * uint (block XOR 7)"
  using u32_lt8_cases [OF assms(1)] u32_lt16_cases [OF assms(2)]
  by (elim disjE; simp add: ks_defs)

lemma table_sorted: "sorted (map uint fnum_to_atten)"
  by (simp add: fnum_to_atten_def)

lemma table_mono:
  assumes "i \<le> j" "j < 16"
  shows "uint (fnum_to_atten ! i) \<le> uint (fnum_to_atten ! j)"
proof -
  have len: "length fnum_to_atten = 16" by (simp add: fnum_to_atten_def)
  have "map uint fnum_to_atten ! i \<le> map uint fnum_to_atten ! j"
    by (rule sorted_nth_mono [OF table_sorted]) (use assms len in simp_all)
  then show ?thesis using assms len by simp
qed

lemma table_bounds:
  assumes "i < 16"
  shows "uint (fnum_to_atten ! i) \<le> 56"
proof -
  have "uint (fnum_to_atten ! i) \<le> uint (fnum_to_atten ! 15)"
    using table_mono [of i 15] assms by simp
  then show ?thesis by (simp add: fnum_to_atten_def)
qed

lemma offsets_eq: "map uint fnum_to_atten = block7_offsets"
  by (simp add: fnum_to_atten_def block7_offsets_def)

lemma offsets_nth: "i < 16 \<Longrightarrow> block7_offsets ! i = uint (fnum_to_atten ! i)"
proof -
  assume "i < 16"
  moreover have "length fnum_to_atten = 16" by (simp add: fnum_to_atten_def)
  ultimately have "map uint fnum_to_atten ! i = uint (fnum_to_atten ! i)" by simp
  then show ?thesis by (simp add: offsets_eq)
qed

lemma uint_of_nonneg_sint:
  fixes w :: u32
  assumes "0 \<le> sint w"
  shows "uint w = sint w"
proof -
  have "sint w < 2 ^ 32" using sint_less [of w] by simp
  then have "take_bit 32 (sint w) = sint w"
    using assms by (simp add: take_bit_int_eq_self)
  then show ?thesis using uint_sint [of w] by simp
qed

lemma uint_block_bounds:
  fixes block :: u32
  assumes "unat block < 8"
  shows "0 \<le> uint block \<and> uint block < 8 \<and> uint (block XOR 7) = 7 - uint block"
  using u32_lt8_cases [OF assms] by auto

lemma uint_block_succ:
  fixes block :: u32
  assumes "unat block < 7"
  shows "unat (block + 1) < 8 \<and> uint (block + 1) = uint block + 1"
proof -
  have "unat block < 8" using assms by simp
  from u32_lt8_cases [OF this] assms show ?thesis by auto
qed

lemma xor7_high:
  fixes block :: u32
  shows "unat (block XOR 7) div 8 = unat block div 8"
proof -
  have "drop_bit 3 (block XOR 7) = drop_bit 3 block"
    by (simp add: drop_bit_xor) 
  then have "unat (drop_bit 3 (block XOR 7)) = unat (drop_bit 3 block)" by simp
  then have "unat ((block XOR 7) div 8) = unat (block div 8)" 
    by (simp add: drop_bit_eq_div)
  then show ?thesis by (simp add: unat_div)
qed

lemma sint_small:
  fixes k :: int
  assumes "- (2 ^ 31) \<le> k" "k < 2 ^ 31"
  shows "sint (word_of_int k :: u32) = k"
proof -
  have "signed_take_bit 31 k = k"
    using assms by (intro signed_take_bit_int_eq_self) simp_all
  then show ?thesis by (simp add: sint_sbintrunc')
qed

lemma same_octet:
  fixes x b n :: nat
  assumes "x div 8 = b div 8" "8 \<le> b" "b < 8 * n"
  shows "8 \<le> x \<and> x < 8 * n"
proof -
  have "8 div 8 \<le> b div 8" using assms(2) by (rule div_le_mono)
  then have "1 \<le> x div 8" using assms(1) by simp
  then have "8 * 1 \<le> 8 * (x div 8)" by (simp only: mult_le_mono2)
  moreover have "8 * (x div 8) \<le> x" by simp
  ultimately have lo: "8 \<le> x" by simp
  have "b div 8 < n" using assms(3) by (simp add: less_mult_imp_div_less mult.commute)
  then have "x div 8 < n" using assms(1) by simp
  then have "x < n * 8" by (simp add: div_less_iff_less_mult)
  then show ?thesis using lo by (simp add: mult.commute)
qed

lemma diff_range:
  fixes a x :: int
  assumes "0 \<le> a" "a \<le> 56" "8 \<le> x" "x < 2 ^ 28"
  shows "- (2 ^ 31) \<le> a - 8 * x \<and> a - 8 * x < 0"
  using assms by simp

lemma clamp_large_block:
  fixes block fnum_4msb :: u32
  assumes "8 \<le> unat block" "unat block < 2 ^ 28" "unat fnum_4msb < 16"
  shows "opl_key_scale_atten block fnum_4msb = Some 0"
proof -
  let ?a = "fnum_to_atten ! unat fnum_4msb"
  let ?x = "block XOR 7"
  have d: "unat ?x div 8 = unat block div 8" by (rule xor7_high)
  have "unat block < 8 * 2 ^ 25" using assms(2) by simp
  from same_octet [OF d assms(1) this]
  have x: "8 \<le> unat ?x" "unat ?x < 2 ^ 28" by simp_all
  have ta: "uint ?a \<le> 56"
    using table_bounds [OF assms(3)] by simp
  have "int 8 \<le> int (unat ?x)" "int (unat ?x) < int (2 ^ 28)"
    using x by (simp_all only: of_nat_le_iff of_nat_less_iff)
  then have ux: "8 \<le> uint ?x" "uint ?x < 2 ^ 28"
    unfolding uint_nat by simp_all
  have r: "- (2 ^ 31) \<le> uint ?a - 8 * uint ?x \<and> uint ?a - 8 * uint ?x < 0"
    by (rule diff_range [OF uint_ge_0 ta ux])
  have "key_scale_diff ?a block = word_of_int (uint ?a - 8 * uint ?x)"
    by (simp add: key_scale_diff_def)
  moreover have "sint (word_of_int (uint ?a - 8 * uint ?x) :: u32) = uint ?a - 8 * uint ?x"
    using r by (intro sint_small) simp_all
  ultimately have "sint (key_scale_diff ?a block) < 0" using r by simp
  then have "max_s32 0 (key_scale_diff ?a block) = 0" by (simp add: max_s32_def)
  moreover have "array_read fnum_to_atten fnum_4msb = Some ?a"
    using assms(3) by (simp add: array_read_def fnum_to_atten_def)
  ultimately show ?thesis by (simp add: opl_key_scale_atten_def)
qed

lemma mod_in_range:
  fixes block fnum_4msb :: u32
  assumes "unat block < 8" "unat fnum_4msb < 16"
  shows "block mod 8 = block \<and> fnum_4msb mod 16 = fnum_4msb"
  using u32_lt8_cases [OF assms(1)] u32_lt16_cases [OF assms(2)] by auto

section \<open>Key-scale attenuation: the claims\<close>

text \<open>
  Claim C1. For every block in 0..7 and every fnum_4msb in 0..15, the function returns
  \<open>max 0 (T ! fnum_4msb - 8 * (7 - block))\<close> for the table
  \<open>T = [0,24,32,37,40,43,45,47,48,50,51,52,53,54,55,56]\<close>: the looked-up value less
  \<open>8 * (7 - block)\<close>, saturated at 0, on all 16 * 8 inputs. The returned \<open>uint32_t\<close> is
  read as an integer by \<open>uint\<close>.
\<close>

theorem opl_key_scale_atten_table:
  fixes block fnum_4msb :: u32
  assumes "unat block < 8" and "unat fnum_4msb < 16"
  shows "map_option uint (opl_key_scale_atten block fnum_4msb) =
    Some (max 0 ([0, 24, 32, 37, 40, 43, 45, 47, 48, 50, 51, 52, 53, 54, 55, 56] ! unat fnum_4msb
                  - 8 * (7 - int (unat block))))"
proof -
  obtain r where r: "opl_key_scale_atten block fnum_4msb = Some r"
    "uint r = max 0 (uint (fnum_to_atten ! unat fnum_4msb) - 8 * (7 - uint block))"
    using key_scale_value [OF assms] by blast
  have "block7_offsets ! unat fnum_4msb = uint (fnum_to_atten ! unat fnum_4msb)"
    using assms(2) by (rule offsets_nth)
  then show ?thesis using r by (simp add: block7_offsets_def)
qed

theorem opl_key_scale_atten_table_witness:
  "unat (5::u32) < 8 \<and> unat (4::u32) < 16
   \<and> map_option uint (opl_key_scale_atten 5 4) = Some 24"
  using opl_key_scale_atten_table [of 5 4] by simp

text \<open>
  Claim C2. The four values listed by the specification: \<open>atten(7, 0) = 0\<close>,
  \<open>atten(7, 15) = 56\<close>, \<open>atten(0, 15) = 0\<close> and \<open>atten(3, 10) = 19\<close>.
\<close>

theorem opl_key_scale_atten_examples:
  "opl_key_scale_atten 7 0 = Some 0 \<and> opl_key_scale_atten 7 15 = Some 56
   \<and> opl_key_scale_atten 0 15 = Some 0 \<and> opl_key_scale_atten 3 10 = Some 19"
  by (simp add: ks_defs)

text \<open>
  Claim C3, as stated, says that the index into the 16-entry table is in bounds for every
  input pair. The parameter is a \<open>uint32_t\<close> and the function applies no mask to it: at
  \<open>fnum_4msb = 16\<close> the read is past the end of the table.
\<close>

theorem fnum_index_out_of_bounds_counterexample:
  "array_read fnum_to_atten 16 = None \<and> opl_key_scale_atten 0 16 = None"
  by (simp add: ks_defs)

text \<open>
  Claim C3, amended. For every block, the index is in bounds when \<open>fnum_4msb\<close> is in
  0..15 (the function then reads the entry at that index and returns a value), and it is
  out of bounds when \<open>fnum_4msb\<close> is 16 or more: keeping the index to 4 bits is left to
  the caller.
\<close>

theorem fnum_index_in_bounds_iff:
  fixes block fnum_4msb :: u32
  shows "(unat fnum_4msb < 16 \<longrightarrow>
            array_read fnum_to_atten fnum_4msb = Some (fnum_to_atten ! unat fnum_4msb)
            \<and> opl_key_scale_atten block fnum_4msb \<noteq> None)
       \<and> (16 \<le> unat fnum_4msb \<longrightarrow>
            array_read fnum_to_atten fnum_4msb = None
            \<and> opl_key_scale_atten block fnum_4msb = None)"
  by (simp add: opl_key_scale_atten_def array_read_def fnum_to_atten_def)

theorem fnum_index_in_bounds_iff_witness:
  "unat (9::u32) < 16 \<and> array_read fnum_to_atten (9::u32) = Some 50
   \<and> opl_key_scale_atten 2 9 \<noteq> None
   \<and> 16 \<le> unat (21::u32) \<and> array_read fnum_to_atten (21::u32) = None
   \<and> opl_key_scale_atten 2 21 = None"
  using fnum_index_in_bounds_iff [of 9 2] fnum_index_in_bounds_iff [of 21 2]
  by (simp add: fnum_to_atten_def)

text \<open>
  Claim C4, as stated, says that the result for any block and fnum_4msb is the result at
  \<open>block mod 8\<close> and \<open>fnum_4msb mod 16\<close>. The function masks neither argument: at
  block 15 the block term is \<open>8 * (15 XOR 7) = 64\<close> and the result is 0, whereas at
  \<open>15 mod 8 = 7\<close> the result is 56.
\<close>

theorem block_not_masked_counterexample:
  "opl_key_scale_atten 15 15 = Some 0 \<and> opl_key_scale_atten (15 mod 8) (15 mod 16) = Some 56"
  by (simp add: ks_defs)

text \<open>
  Claim C4, amended. The function rejects no block: with \<open>fnum_4msb\<close> in 0..15 it returns
  a value for every 32-bit block. It masks neither argument. For a block in 0..7 and
  \<open>fnum_4msb\<close> in 0..15 the result is the one at \<open>block mod 8\<close>, \<open>fnum_4msb mod 16\<close>
  (which are the arguments themselves); for a block from 8 up to \<open>2 ^ 28 - 1\<close> the
  result is 0, since the bits of the block above the low three stay in the block term and
  the clamp applies; and an \<open>fnum_4msb\<close> of 16 or more indexes past the table.
\<close>

theorem opl_key_scale_atten_no_masking:
  fixes block fnum_4msb :: u32
  shows "(unat fnum_4msb < 16 \<longrightarrow> opl_key_scale_atten block fnum_4msb \<noteq> None)
     \<and> (unat block < 8 \<and> unat fnum_4msb < 16 \<longrightarrow>
          opl_key_scale_atten block fnum_4msb = opl_key_scale_atten (block mod 8) (fnum_4msb mod 16))
     \<and> (8 \<le> unat block \<and> unat block < 2 ^ 28 \<and> unat fnum_4msb < 16 \<longrightarrow>
          opl_key_scale_atten block fnum_4msb = Some 0)
     \<and> (16 \<le> unat fnum_4msb \<longrightarrow> opl_key_scale_atten block fnum_4msb = None)"
proof (intro conjI impI)
  assume "unat fnum_4msb < 16"
  then show "opl_key_scale_atten block fnum_4msb \<noteq> None"
    by (simp add: opl_key_scale_atten_def array_read_def fnum_to_atten_def)
next
  assume h: "unat block < 8 \<and> unat fnum_4msb < 16"
  have "block mod 8 = block \<and> fnum_4msb mod 16 = fnum_4msb"
    by (rule mod_in_range [OF conjunct1 [OF h] conjunct2 [OF h]])
  then show "opl_key_scale_atten block fnum_4msb = opl_key_scale_atten (block mod 8) (fnum_4msb mod 16)"
    by (elim conjE) (simp only:)
next
  assume h: "8 \<le> unat block \<and> unat block < 2 ^ 28 \<and> unat fnum_4msb < 16"
  show "opl_key_scale_atten block fnum_4msb = Some 0"
    by (rule clamp_large_block [OF conjunct1 [OF h] conjunct1 [OF conjunct2 [OF h]]
          conjunct2 [OF conjunct2 [OF h]]])
next
  assume "16 \<le> unat fnum_4msb"
  then show "opl_key_scale_atten block fnum_4msb = None"
    by (simp add: opl_key_scale_atten_def array_read_def fnum_to_atten_def)
qed

theorem opl_key_scale_atten_no_masking_witness:
  "unat (6::u32) < 8 \<and> unat (13::u32) < 16 \<and> opl_key_scale_atten 6 13 = Some 46
   \<and> opl_key_scale_atten 6 13 = opl_key_scale_atten (6 mod 8) (13 mod 16)
   \<and> 8 \<le> unat (14::u32) \<and> unat (14::u32) < 2 ^ 28 \<and> opl_key_scale_atten 14 13 = Some 0
   \<and> 16 \<le> unat (29::u32) \<and> opl_key_scale_atten 6 29 = None"
  using opl_key_scale_atten_no_masking [of 13 6] opl_key_scale_atten_no_masking [of 13 14]
    opl_key_scale_atten_no_masking [of 29 6]
  by (simp add: ks_defs)

text \<open>
  Claim C5. On blocks 0..7 and fnum_4msb 0..15 the XOR form of the block term used by the
  code equals the subtraction form of the specification: \<open>block XOR 7 = 7 - block\<close>, the
  \<open>int32_t\<close> value of \<open>fnum_to_atten[fnum_4msb] - 8 * (block ^ 7)\<close> is the integer
  \<open>T ! fnum_4msb - 8 * (7 - block)\<close>, and the function translated from the source
  agrees with the definition that follows the specification's words.
\<close>

theorem xor_formulation_refines_spec:
  fixes block fnum_4msb :: u32
  assumes "unat block < 8" and "unat fnum_4msb < 16"
  shows "block XOR 7 = 7 - block
    \<and> sint (key_scale_diff (fnum_to_atten ! unat fnum_4msb) block)
        = block7_offsets ! unat fnum_4msb - 8 * (7 - int (unat block))
    \<and> map_option uint (opl_key_scale_atten block fnum_4msb)
        = Some (key_scale_atten_spec (unat block) (unat fnum_4msb))"
proof (intro conjI)
  show x: "block XOR 7 = 7 - block"
    using u32_lt8_cases [OF assms(1)] by auto
  have ux: "uint (block XOR 7) = 7 - uint block"
    using u32_lt8_cases [OF assms(1)] by auto
  have t: "block7_offsets ! unat fnum_4msb = uint (fnum_to_atten ! unat fnum_4msb)"
    using assms(2) by (rule offsets_nth)
  show "sint (key_scale_diff (fnum_to_atten ! unat fnum_4msb) block)
        = block7_offsets ! unat fnum_4msb - 8 * (7 - int (unat block))"
    using diff_exact [OF assms] ux t by simp
  obtain r where r: "opl_key_scale_atten block fnum_4msb = Some r"
    "uint r = max 0 (uint (fnum_to_atten ! unat fnum_4msb) - 8 * (7 - uint block))"
    using key_scale_value [OF assms] by blast
  then show "map_option uint (opl_key_scale_atten block fnum_4msb)
        = Some (key_scale_atten_spec (unat block) (unat fnum_4msb))"
    using t by (simp add: key_scale_atten_spec_def)
qed

theorem xor_formulation_refines_spec_witness:
  "unat (2::u32) < 8 \<and> unat (12::u32) < 16 \<and> (2::u32) XOR 7 = 7 - 2
   \<and> sint (key_scale_diff (fnum_to_atten ! unat (12::u32)) 2) = 13
   \<and> key_scale_atten_spec 2 12 = 13
   \<and> map_option uint (opl_key_scale_atten 2 12) = Some (key_scale_atten_spec (unat (2::u32)) (unat (12::u32)))"
  using xor_formulation_refines_spec [of 2 12] by (simp add: block7_offsets_def key_scale_atten_spec_def)

text \<open>
  Claim C7. On the declared domain the result is monotonic in both arguments: for a fixed
  block in 0..7 it does not decrease as fnum_4msb grows within 0..15, and for a fixed
  fnum_4msb in 0..15 it does not decrease as the block grows within 0..7. The results are
  compared as unsigned 32-bit values.
\<close>

theorem opl_key_scale_atten_mono:
  fixes block block1 block2 fnum_4msb fnum_4msb1 fnum_4msb2 :: u32
  shows "(unat block < 8 \<and> unat fnum_4msb1 \<le> unat fnum_4msb2 \<and> unat fnum_4msb2 < 16 \<longrightarrow>
            (\<exists>r1 r2. opl_key_scale_atten block fnum_4msb1 = Some r1 \<and>
                     opl_key_scale_atten block fnum_4msb2 = Some r2 \<and> r1 \<le> r2))
       \<and> (unat fnum_4msb < 16 \<and> unat block1 \<le> unat block2 \<and> unat block2 < 8 \<longrightarrow>
            (\<exists>r1 r2. opl_key_scale_atten block1 fnum_4msb = Some r1 \<and>
                     opl_key_scale_atten block2 fnum_4msb = Some r2 \<and> r1 \<le> r2))"
proof (intro conjI impI)
  assume h: "unat block < 8 \<and> unat fnum_4msb1 \<le> unat fnum_4msb2 \<and> unat fnum_4msb2 < 16"
  then have b: "unat block < 8" and f1: "unat fnum_4msb1 < 16" and f2: "unat fnum_4msb2 < 16"
    by simp_all
  obtain r1 where r1: "opl_key_scale_atten block fnum_4msb1 = Some r1"
    "uint r1 = max 0 (uint (fnum_to_atten ! unat fnum_4msb1) - 8 * (7 - uint block))"
    using key_scale_value [OF b f1] by blast
  obtain r2 where r2: "opl_key_scale_atten block fnum_4msb2 = Some r2"
    "uint r2 = max 0 (uint (fnum_to_atten ! unat fnum_4msb2) - 8 * (7 - uint block))"
    using key_scale_value [OF b f2] by blast
  have "uint (fnum_to_atten ! unat fnum_4msb1) \<le> uint (fnum_to_atten ! unat fnum_4msb2)"
    using h by (simp add: table_mono)
  then have "uint r1 \<le> uint r2" using r1(2) r2(2) by simp
  then have "r1 \<le> r2" by (simp add: word_le_def)
  then show "\<exists>r1 r2. opl_key_scale_atten block fnum_4msb1 = Some r1 \<and>
                     opl_key_scale_atten block fnum_4msb2 = Some r2 \<and> r1 \<le> r2"
    using r1(1) r2(1) by simp
next
  assume h: "unat fnum_4msb < 16 \<and> unat block1 \<le> unat block2 \<and> unat block2 < 8"
  then have f: "unat fnum_4msb < 16" and b1: "unat block1 < 8" and b2: "unat block2 < 8"
    by simp_all
  obtain r1 where r1: "opl_key_scale_atten block1 fnum_4msb = Some r1"
    "uint r1 = max 0 (uint (fnum_to_atten ! unat fnum_4msb) - 8 * (7 - uint block1))"
    using key_scale_value [OF b1 f] by blast
  obtain r2 where r2: "opl_key_scale_atten block2 fnum_4msb = Some r2"
    "uint r2 = max 0 (uint (fnum_to_atten ! unat fnum_4msb) - 8 * (7 - uint block2))"
    using key_scale_value [OF b2 f] by blast
  have "block1 \<le> block2" using h by (simp add: word_le_nat_alt)
  then have "uint block1 \<le> uint block2" by (simp add: word_le_def)
  then have "uint r1 \<le> uint r2" using r1(2) r2(2) by simp
  then have "r1 \<le> r2" by (simp add: word_le_def)
  then show "\<exists>r1 r2. opl_key_scale_atten block1 fnum_4msb = Some r1 \<and>
                     opl_key_scale_atten block2 fnum_4msb = Some r2 \<and> r1 \<le> r2"
    using r1(1) r2(1) by simp
qed

theorem opl_key_scale_atten_mono_witness:
  "unat (4::u32) < 8 \<and> unat (3::u32) \<le> unat (9::u32) \<and> unat (9::u32) < 16
   \<and> opl_key_scale_atten 4 3 = Some 13 \<and> opl_key_scale_atten 4 9 = Some 26
   \<and> unat (2::u32) \<le> unat (6::u32) \<and> unat (6::u32) < 8
   \<and> opl_key_scale_atten 2 9 = Some 10 \<and> opl_key_scale_atten 6 9 = Some 42
   \<and> (\<exists>r1 r2. opl_key_scale_atten 4 3 = Some r1 \<and> opl_key_scale_atten 4 9 = Some r2 \<and> r1 \<le> r2)
   \<and> (\<exists>r1 r2. opl_key_scale_atten 2 9 = Some r1 \<and> opl_key_scale_atten 6 9 = Some r2 \<and> r1 \<le> r2)"
  using opl_key_scale_atten_mono [of 4 3 9 9 2 6] by (simp add: ks_defs)

text \<open>
  Claim C8. For every block in 0..7 and fnum_4msb in 0..15: the \<open>int32_t\<close> value
  \<open>result\<close> is the exact integer \<open>fnum_to_atten[fnum_4msb] - 8 * (block ^ 7)\<close>, which
  lies in \<open>[-56, 56]\<close> and so does not overflow 32 signed bits; the maximum with 0 is
  not negative, so its conversion to the \<open>uint32_t\<close> return value does not wrap; and
  the returned value lies in \<open>[0, 56]\<close>.
\<close>

theorem opl_key_scale_atten_range_no_overflow:
  fixes block fnum_4msb :: u32
  assumes "unat block < 8" and "unat fnum_4msb < 16"
  shows "\<exists>a result r. array_read fnum_to_atten fnum_4msb = Some a
      \<and> result = key_scale_diff a block
      \<and> sint result = uint a - 8 * uint (block XOR 7)
      \<and> - 56 \<le> sint result \<and> sint result \<le> 56
      \<and> opl_key_scale_atten block fnum_4msb = Some r
      \<and> 0 \<le> sint (max_s32 0 result)
      \<and> uint r = sint (max_s32 0 result)
      \<and> 0 \<le> uint r \<and> uint r \<le> 56"
proof -
  let ?a = "fnum_to_atten ! unat fnum_4msb"
  have rd: "array_read fnum_to_atten fnum_4msb = Some ?a"
    using assms(2) by (simp add: array_read_def fnum_to_atten_def)
  have ex: "sint (key_scale_diff ?a block) = uint ?a - 8 * uint (block XOR 7)"
    using diff_exact [OF assms] .
  have ub: "0 \<le> uint block" "uint block < 8" "uint (block XOR 7) = 7 - uint block"
    using uint_block_bounds [OF assms(1)] by simp_all
  have ta: "0 \<le> uint ?a" "uint ?a \<le> 56"
    using table_bounds [OF assms(2)] by simp_all
  have lo: "- 56 \<le> sint (key_scale_diff ?a block)" and hi: "sint (key_scale_diff ?a block) \<le> 56"
    using ex ub ta by simp_all
  have r: "opl_key_scale_atten block fnum_4msb = Some (max_s32 0 (key_scale_diff ?a block))"
    using rd by (simp add: opl_key_scale_atten_def)
  have nn: "0 \<le> sint (max_s32 0 (key_scale_diff ?a block))"
    by (simp add: max_s32_def)
  have le: "sint (max_s32 0 (key_scale_diff ?a block)) \<le> 56"
    using hi by (simp add: max_s32_def)
  have conv: "uint (max_s32 0 (key_scale_diff ?a block)) = sint (max_s32 0 (key_scale_diff ?a block))"
    using nn by (rule uint_of_nonneg_sint)
  show ?thesis using rd ex lo hi r nn le conv by simp
qed

theorem opl_key_scale_atten_range_no_overflow_witness:
  "unat (1::u32) < 8 \<and> unat (5::u32) < 16 \<and> sint (key_scale_diff 43 1) = - 5
    \<and> opl_key_scale_atten 1 5 = Some 0"
  using opl_key_scale_atten_range_no_overflow [of 1 5] by (simp add: ks_defs)

text \<open>
  Claim C9. Where the clamp is inactive, one octave up adds exactly 8 units: for every
  block in 0..6 and fnum_4msb in 0..15 with
  \<open>8 * (7 - block) \<le> fnum_to_atten[fnum_4msb]\<close>, the result at \<open>block + 1\<close> less the
  result at \<open>block\<close> is 8.
\<close>

theorem opl_key_scale_atten_octave_step:
  fixes block fnum_4msb :: u32
  assumes "unat block < 7" and "unat fnum_4msb < 16"
    and "8 * (7 - uint block) \<le> uint (fnum_to_atten ! unat fnum_4msb)"
  shows "\<exists>r r'. opl_key_scale_atten block fnum_4msb = Some r
            \<and> opl_key_scale_atten (block + 1) fnum_4msb = Some r'
            \<and> uint r' - uint r = 8 \<and> r' - r = 8"
proof -
  have b: "unat block < 8" using assms(1) by simp
  have b1: "unat (block + 1) < 8" and ub: "uint (block + 1) = uint block + 1"
    using uint_block_succ [OF assms(1)] by simp_all
  obtain r where r: "opl_key_scale_atten block fnum_4msb = Some r"
    "uint r = max 0 (uint (fnum_to_atten ! unat fnum_4msb) - 8 * (7 - uint block))"
    using key_scale_value [OF b assms(2)] by blast
  obtain r' where r': "opl_key_scale_atten (block + 1) fnum_4msb = Some r'"
    "uint r' = max 0 (uint (fnum_to_atten ! unat fnum_4msb) - 8 * (7 - uint (block + 1)))"
    using key_scale_value [OF b1 assms(2)] by blast
  have d: "uint r' - uint r = 8" using r(2) r'(2) ub assms(3) by simp
  then have "uint r' = uint r + 8" by simp
  then have "(word_of_int (uint r') :: u32) = word_of_int (uint r + 8)" by simp
  then have "r' = r + 8" by simp
  then show ?thesis using r(1) r'(1) d by simp
qed

theorem opl_key_scale_atten_octave_step_witness:
  "unat (3::u32) < 7 \<and> unat (10::u32) < 16 \<and> 8 * (7 - uint (3::u32)) \<le> uint (fnum_to_atten ! unat (10::u32))
   \<and> opl_key_scale_atten 3 10 = Some 19 \<and> opl_key_scale_atten (3 + 1) 10 = Some 27"
  using opl_key_scale_atten_octave_step [of 3 10] by (simp add: ks_defs)

end
